theory Spec2Isabelle
  imports Main "HOL-Library.Word"
begin

section \<open>Strings and values of the script\<close>

text \<open>
  A JavaScript string is a sequence of UTF-16 code units; \<open>length\<close>, \<open>trim\<close> and a
  regular expression without the \<open>u\<close> flag all work on code units. The values of the
  controls are modelled that way. Identifiers, class names, messages and the other
  literals of the script are ASCII and are kept as HOL strings.
\<close>

type_synonym code_unit = "16 word"
type_synonym jsstring = "code_unit list"

definition js :: "string \<Rightarrow> jsstring" where
  "js s = map of_char s"

text \<open>
  White space as \<open>String.prototype.trim\<close> and the class escape \<open>\s\<close> understand it:
  the WhiteSpace and LineTerminator code points of ECMAScript (TAB, LF, VT, FF, CR, SP,
  NBSP, U+1680, U+2000 to U+200A, U+2028, U+2029, U+202F, U+205F, U+3000, U+FEFF).
\<close>

definition isWhiteSpace :: "code_unit \<Rightarrow> bool" where
  "isWhiteSpace c =
     (c \<in> {0x9, 0xA, 0xB, 0xC, 0xD, 0x20, 0xA0, 0x1680, 0x2028, 0x2029,
            0x202F, 0x205F, 0x3000, 0xFEFF}
      \<or> (0x2000 \<le> c \<and> c \<le> 0x200A))"

definition trim :: "jsstring \<Rightarrow> jsstring" where
  "trim s = rev (dropWhile isWhiteSpace (rev (dropWhile isWhiteSpace s)))"

text \<open>
  The value handed to a predicate is \<open>element.value || (... ? element.checked : '')\<close>:
  a string or a boolean. Calling a method that a value does not have raises TypeError,
  as does reading a property of \<open>null\<close>.
\<close>

datatype jsval = JString jsstring | JBoolean bool

datatype js_error = TypeError

definition ToString :: "jsval \<Rightarrow> jsstring" where
  "ToString v = (case v of JString s \<Rightarrow> s
                 | JBoolean b \<Rightarrow> (if b then js ''true'' else js ''false''))"

section \<open>Utility functions\<close>

subsection \<open>The regular expression of isValidEmail\<close>

text \<open>
  \<open>/^[^\s@]+@[^\s@]+\.[^\s@]+$/\<close> is a sequence of terms between the two anchors; a
  term is a literal code unit or a negated character class repeated one or more times.
  Matching is by backtracking: a term yields the inputs left after each of its possible
  matches, the longest match first, and the sequence succeeds when some choice reaches
  the end of the input at \<open>$\<close>.
\<close>

datatype class_item = ClassSpace | ClassChar code_unit

datatype regex_term = Literal code_unit | NegClassPlus "class_item list"

fun class_item_matches :: "class_item \<Rightarrow> code_unit \<Rightarrow> bool" where
  "class_item_matches ClassSpace c = isWhiteSpace c"
| "class_item_matches (ClassChar a) c = (c = a)"

definition neg_class_matches :: "class_item list \<Rightarrow> code_unit \<Rightarrow> bool" where
  "neg_class_matches items c = (\<not> list_ex (\<lambda>i. class_item_matches i c) items)"

fun plus_rests :: "(code_unit \<Rightarrow> bool) \<Rightarrow> jsstring \<Rightarrow> jsstring list" where
  "plus_rests p [] = []"
| "plus_rests p (c # cs) = (if p c then plus_rests p cs @ [cs] else [])"

fun match_term :: "regex_term \<Rightarrow> jsstring \<Rightarrow> jsstring list" where
  "match_term (Literal a) [] = []"
| "match_term (Literal a) (c # cs) = (if c = a then [cs] else [])"
| "match_term (NegClassPlus items) s = plus_rests (neg_class_matches items) s"

fun match_seq :: "regex_term list \<Rightarrow> jsstring \<Rightarrow> bool" where
  "match_seq [] s = (s = [])"
| "match_seq (t # ts) s = list_ex (match_seq ts) (match_term t s)"

definition regex_test :: "regex_term list \<Rightarrow> jsstring \<Rightarrow> bool" where
  "regex_test pattern s = match_seq pattern s"

definition at_sign :: code_unit where
  "at_sign = 0x40"

definition full_stop :: code_unit where
  "full_stop = 0x2E"

definition emailRegex :: "regex_term list" where
  "emailRegex =
     [NegClassPlus [ClassSpace, ClassChar at_sign], Literal at_sign,
      NegClassPlus [ClassSpace, ClassChar at_sign], Literal full_stop,
      NegClassPlus [ClassSpace, ClassChar at_sign]]"

subsection \<open>isValidEmail and isFieldValid\<close>

text \<open>
  \<open>RegExp.prototype.test\<close> converts its argument to a string first, so it never
  raises. \<open>value.trim()\<close> exists on strings only: on a boolean \<open>value.trim\<close> is
  \<open>undefined\<close> and the call raises TypeError.
\<close>

definition isValidEmail :: "jsval \<Rightarrow> js_error + bool" where
  "isValidEmail email = Inr (regex_test emailRegex (ToString email))"

fun isFieldValid :: "jsval \<Rightarrow> js_error + bool" where
  "isFieldValid (JString v) = Inr (length (trim v) > 0)"
| "isFieldValid (JBoolean b) = Inl TypeError"

section \<open>The page\<close>

text \<open>
  The script reaches the page through \<open>document.getElementById\<close> only, with the ids
  \<open>contactForm\<close>, the six field ids, \<open>id + 'Error'\<close> for each field and
  \<open>successMessage\<close>. The page is modelled by one lookup for each of these kinds; an
  absent element (\<open>null\<close>) is \<open>None\<close>, and the form by its presence. Which elements
  exist does not change during a session. A control carries the properties the script
  reads (\<open>value\<close>, \<open>type\<close>, \<open>checked\<close>) and the defaults that \<open>form.reset()\<close>
  restores; an error element its \<open>textContent\<close> and \<open>classList\<close>; the success element
  its \<open>style.display\<close>. The diagnostic channel and the pending timers are part of the
  state, as is the \<open>defaultPrevented\<close> flag of the submit event being handled.
\<close>

datatype field = Name | Email | Subject | Category | Message | Consent

record control =
  el_value :: jsstring
  el_type :: string
  el_checked :: bool
  el_defaultValue :: jsstring
  el_defaultChecked :: bool

record error_element =
  textContent :: string
  classList :: "string list"

record success_element =
  display :: string

datatype console_entry = LogText string | LogObject "(string \<times> jsstring) list"

datatype callback = HideSuccessMessage

record state =
  contactForm :: bool
  controls :: "field \<Rightarrow> control option"
  errorElements :: "field \<Rightarrow> error_element option"
  successMessage :: "success_element option"
  console :: "console_entry list"
  timers :: "(nat \<times> callback) list"
  defaultPrevented :: bool

type_synonym outcome = "state \<times> js_error option"

definition classList_add :: "string \<Rightarrow> string list \<Rightarrow> string list" where
  "classList_add token cl = (if token \<in> set cl then cl else cl @ [token])"

definition classList_remove :: "string \<Rightarrow> string list \<Rightarrow> string list" where
  "classList_remove token cl = removeAll token cl"

subsection \<open>showFieldError and clearFieldError\<close>

definition showFieldError :: "field \<Rightarrow> string \<Rightarrow> state \<Rightarrow> state" where
  "showFieldError fieldId message s =
     (case errorElements s fieldId of
        None \<Rightarrow> s
      | Some errorElement \<Rightarrow>
          s\<lparr>errorElements := (errorElements s)(fieldId \<mapsto>
               errorElement\<lparr>textContent := message,
                             classList := classList_add ''show'' (classList errorElement)\<rparr>)\<rparr>)"

definition clearFieldError :: "field \<Rightarrow> state \<Rightarrow> state" where
  "clearFieldError fieldId s =
     (case errorElements s fieldId of
        None \<Rightarrow> s
      | Some errorElement \<Rightarrow>
          s\<lparr>errorElements := (errorElements s)(fieldId \<mapsto>
               errorElement\<lparr>textContent := [],
                             classList := classList_remove ''show'' (classList errorElement)\<rparr>)\<rparr>)"

section \<open>The contact form handler\<close>

subsection \<open>The rule table\<close>

text \<open>
  \<open>fields\<close> binds each key to its element, predicate and message;
  \<open>Object.entries\<close> walks the keys in the order they are written.
\<close>

definition fieldIds :: "field list" where
  "fieldIds = [Name, Email, Subject, Category, Message, Consent]"

fun fieldKey :: "field \<Rightarrow> string" where
  "fieldKey Name = ''name''"
| "fieldKey Email = ''email''"
| "fieldKey Subject = ''subject''"
| "fieldKey Category = ''category''"
| "fieldKey Message = ''message''"
| "fieldKey Consent = ''consent''"

fun errorMsg :: "field \<Rightarrow> string" where
  "errorMsg Name = ''Please enter your full name''"
| "errorMsg Email = ''Please enter a valid email address''"
| "errorMsg Subject = ''Please enter a subject''"
| "errorMsg Category = ''Please select a category''"
| "errorMsg Message = ''Please enter a message''"
| "errorMsg Consent = ''You must agree to the Privacy Policy''"

text \<open>
  The consent predicate ignores its argument and reads
  \<open>document.getElementById('consent').checked\<close>, which raises TypeError on \<open>null\<close>.
\<close>

fun validate :: "field \<Rightarrow> state \<Rightarrow> jsval \<Rightarrow> js_error + bool" where
  "validate Name s val = isFieldValid val"
| "validate Email s val = isValidEmail val"
| "validate Subject s val = isFieldValid val"
| "validate Category s val = isFieldValid val"
| "validate Message s val = isFieldValid val"
| "validate Consent s val =
     (case controls s Consent of None \<Rightarrow> Inl TypeError | Some el \<Rightarrow> Inr (el_checked el))"

text \<open>
  \<open>element.value || (element.type === 'checkbox' ? element.checked : '')\<close>: a string is
  truthy unless it is empty.
\<close>

definition current_value :: "control \<Rightarrow> jsval" where
  "current_value el =
     (if el_value el \<noteq> [] then JString (el_value el)
      else if el_type el = ''checkbox'' then JBoolean (el_checked el)
      else JString [])"

text \<open>
  Reading the value and applying the predicate, as the blur listener and the submit pass
  both do. \<open>fieldData.element.value\<close> raises TypeError when the element is \<open>null\<close>.
\<close>

definition check_field :: "field \<Rightarrow> state \<Rightarrow> js_error + bool" where
  "check_field fieldId s =
     (case controls s fieldId of
        None \<Rightarrow> Inl TypeError
      | Some el \<Rightarrow> validate fieldId s (current_value el))"

subsection \<open>Listeners of the controls\<close>

definition blur_listener :: "field \<Rightarrow> state \<Rightarrow> outcome" where
  "blur_listener fieldId s =
     (case check_field fieldId s of
        Inl e \<Rightarrow> (s, Some e)
      | Inr valid \<Rightarrow>
          if \<not> valid then (showFieldError fieldId (errorMsg fieldId) s, None)
          else (clearFieldError fieldId s, None))"

definition input_listener :: "field \<Rightarrow> state \<Rightarrow> outcome" where
  "input_listener fieldId s = (clearFieldError fieldId s, None)"

definition change_listener :: "field \<Rightarrow> state \<Rightarrow> outcome" where
  "change_listener fieldId s = (clearFieldError fieldId s, None)"

subsection \<open>The submit listener\<close>

text \<open>
  The \<open>forEach\<close> of the submit pass, with \<open>isFormValid\<close> as accumulator. An exception
  leaves the loop with the page as it is at that point.
\<close>

fun validate_all :: "field list \<Rightarrow> state \<Rightarrow> bool \<Rightarrow> state \<times> (js_error + bool)" where
  "validate_all [] s isFormValid = (s, Inr isFormValid)"
| "validate_all (fieldId # rest) s isFormValid =
     (case check_field fieldId s of
        Inl e \<Rightarrow> (s, Inl e)
      | Inr valid \<Rightarrow>
          if \<not> valid then validate_all rest (showFieldError fieldId (errorMsg fieldId) s) False
          else validate_all rest (clearFieldError fieldId s) isFormValid)"

text \<open>\<open>form.reset()\<close> restores the default value and checkedness of the form's controls.\<close>

definition form_reset :: "state \<Rightarrow> state" where
  "form_reset s =
     s\<lparr>controls := (\<lambda>f. map_option
          (\<lambda>el. el\<lparr>el_value := el_defaultValue el, el_checked := el_defaultChecked el\<rparr>)
          (controls s f))\<rparr>"

text \<open>The object literal of the second \<open>console.log\<close>: each \<open>fields.k.element.value\<close>.\<close>

fun read_payload :: "field list \<Rightarrow> state \<Rightarrow> js_error + (string \<times> jsstring) list" where
  "read_payload [] s = Inr []"
| "read_payload (k # ks) s =
     (case controls s k of
        None \<Rightarrow> Inl TypeError
      | Some el \<Rightarrow>
          (case read_payload ks s of
             Inl e \<Rightarrow> Inl e
           | Inr kvs \<Rightarrow> Inr ((fieldKey k, el_value el) # kvs)))"

definition success_path :: "state \<Rightarrow> outcome" where
  "success_path s =
     (let s1 = (case successMessage s of
                  None \<Rightarrow> s
                | Some m \<Rightarrow> s\<lparr>successMessage := Some (m\<lparr>display := ''block''\<rparr>)\<rparr>);
          s2 = form_reset s1;
          s3 = s2\<lparr>timers := timers s2 @ [(5000, HideSuccessMessage)]\<rparr>;
          s4 = s3\<lparr>console := console s3 @ [LogText ''Form submitted successfully'']\<rparr>
      in case read_payload [Name, Email, Subject, Category, Message] s4 of
           Inl e \<Rightarrow> (s4, Some e)
         | Inr payload \<Rightarrow> (s4\<lparr>console := console s4 @ [LogObject payload]\<rparr>, None))"

definition submit_listener :: "state \<Rightarrow> outcome" where
  "submit_listener s =
     (case validate_all fieldIds (s\<lparr>defaultPrevented := True\<rparr>) True of
        (s1, Inl e) \<Rightarrow> (s1, Some e)
      | (s1, Inr isFormValid) \<Rightarrow> if isFormValid then success_path s1 else (s1, None))"

subsection \<open>Timers\<close>

fun run_callback :: "callback \<Rightarrow> state \<Rightarrow> state" where
  "run_callback HideSuccessMessage s =
     (case successMessage s of
        None \<Rightarrow> s
      | Some m \<Rightarrow> s\<lparr>successMessage := Some (m\<lparr>display := ''none''\<rparr>)\<rparr>)"

text \<open>The oldest pending timer fires once its delay has passed.\<close>

definition fire_timer :: "state \<Rightarrow> state" where
  "fire_timer s =
     (case timers s of
        [] \<Rightarrow> s
      | (delay, cb) # rest \<Rightarrow> run_callback cb (s\<lparr>timers := rest\<rparr>))"

subsection \<open>initializeContactForm: the wiring\<close>

datatype target = ControlOf field | FormTarget

datatype event_type = Blur | Input | Change | Submit

text \<open>
  Without the form nothing is registered. A field whose control is absent gets no
  listener; the submit listener is registered on the form.
\<close>

definition initializeContactForm :: "state \<Rightarrow> (target \<times> event_type) list" where
  "initializeContactForm s =
     (if \<not> contactForm s then []
      else concat (map (\<lambda>fieldId.
             if controls s fieldId \<noteq> None
             then [(ControlOf fieldId, Blur), (ControlOf fieldId, Input),
                   (ControlOf fieldId, Change)]
             else []) fieldIds)
           @ [(FormTarget, Submit)])"

fun run_listener :: "target \<times> event_type \<Rightarrow> state \<Rightarrow> outcome" where
  "run_listener (ControlOf fieldId, Blur) s = blur_listener fieldId s"
| "run_listener (ControlOf fieldId, Input) s = input_listener fieldId s"
| "run_listener (ControlOf fieldId, Change) s = change_listener fieldId s"
| "run_listener (FormTarget, Submit) s = submit_listener s"
| "run_listener other s = (s, None)"

text \<open>An event runs the listener registered for it, if there is one.\<close>

definition dispatch :: "target \<times> event_type \<Rightarrow> state \<Rightarrow> outcome" where
  "dispatch ev s =
     (if ev \<in> set (initializeContactForm s) then run_listener ev s else (s, None))"

section \<open>Vocabulary of the specification\<close>

subsection \<open>The shape of an email address\<close>

text \<open>
  The specification's wording of the email rule: the string is
  \<open>local-part@domain.part\<close>, where the local part and the domain (all that follows the
  \<open>@\<close>) exclude white space and \<open>@\<close>, and the domain contains a \<open>.\<close> with something
  on either side of it. The three parts of the shape are not empty.
\<close>

definition excludes_space_and_at :: "jsstring \<Rightarrow> bool" where
  "excludes_space_and_at s = (\<forall>c \<in> set s. \<not> isWhiteSpace c \<and> c \<noteq> at_sign)"

definition email_shape :: "jsstring \<Rightarrow> bool" where
  "email_shape s =
     (\<exists>local_part domain.
        s = local_part @ [at_sign] @ domain \<and> local_part \<noteq> [] \<and>
        excludes_space_and_at local_part \<and> excludes_space_and_at domain \<and>
        (\<exists>label part. domain = label @ [full_stop] @ part \<and> label \<noteq> [] \<and> part \<noteq> []))"

subsection \<open>Error annotations\<close>

text \<open>
  An annotation is active when its element carries the class \<open>show\<close>; it shows the
  field's error when, in addition, its text is the field's message. A field has no active
  error when its element is absent or is as \<open>clearFieldError\<close> leaves it.
\<close>

definition error_active :: "state \<Rightarrow> field \<Rightarrow> bool" where
  "error_active s f =
     (case errorElements s f of None \<Rightarrow> False | Some e \<Rightarrow> ''show'' \<in> set (classList e))"

definition error_shown :: "state \<Rightarrow> field \<Rightarrow> bool" where
  "error_shown s f =
     (case errorElements s f of
        None \<Rightarrow> False
      | Some e \<Rightarrow> textContent e = errorMsg f \<and> ''show'' \<in> set (classList e))"

definition no_active_error :: "state \<Rightarrow> field \<Rightarrow> bool" where
  "no_active_error s f =
     (case errorElements s f of
        None \<Rightarrow> True
      | Some e \<Rightarrow> textContent e = [] \<and> ''show'' \<notin> set (classList e))"

text \<open>
  The element as \<open>showFieldError\<close> and as \<open>clearFieldError\<close> leave it, and the
  annotation of a field after a submit pass that evaluated its predicate.
\<close>

definition shown_element :: "string \<Rightarrow> error_element \<Rightarrow> error_element" where
  "shown_element message e =
     e\<lparr>textContent := message, classList := classList_add ''show'' (classList e)\<rparr>"

definition cleared_element :: "error_element \<Rightarrow> error_element" where
  "cleared_element e =
     e\<lparr>textContent := [], classList := classList_remove ''show'' (classList e)\<rparr>"

definition annotation_after :: "state \<Rightarrow> field \<Rightarrow> error_element option" where
  "annotation_after s f =
     (if check_field f s = Inr True then map_option cleared_element (errorElements s f)
      else map_option (shown_element (errorMsg f)) (errorElements s f))"

subsection \<open>The success path\<close>

text \<open>
  The effects of the success path between the page before the submit and the page after
  it: the success message is revealed (if there is one), the controls are reset, the hide
  timer is scheduled at 5000 ms, and the two entries are logged.
\<close>

definition success_effects :: "state \<Rightarrow> state \<Rightarrow> bool" where
  "success_effects s s' =
     (successMessage s' = map_option (\<lambda>m. m\<lparr>display := ''block''\<rparr>) (successMessage s)
      \<and> controls s' = controls (form_reset s)
      \<and> timers s' = timers s @ [(5000, HideSuccessMessage)]
      \<and> (\<exists>payload. console s' =
            console s @ [LogText ''Form submitted successfully'', LogObject payload]))"

subsection \<open>Sample pages\<close>

text \<open>
  A contact page as the markup would give it: text controls with empty defaults, the
  consent checkbox (whose \<open>value\<close> is \<open>on\<close>), hidden error elements, a hidden success
  message, nothing logged and no timer pending.
\<close>

definition text_control :: "jsstring \<Rightarrow> control" where
  "text_control v =
     \<lparr>el_value = v, el_type = ''text'', el_checked = False,
      el_defaultValue = [], el_defaultChecked = False\<rparr>"

definition checkbox_control :: "bool \<Rightarrow> control" where
  "checkbox_control b =
     \<lparr>el_value = js ''on'', el_type = ''checkbox'', el_checked = b,
      el_defaultValue = js ''on'', el_defaultChecked = False\<rparr>"

definition blank_error :: error_element where
  "blank_error = \<lparr>textContent = [], classList = [''error-message'']\<rparr>"

definition contact_page ::
  "(field \<Rightarrow> control option) \<Rightarrow> (field \<Rightarrow> error_element option) \<Rightarrow> state" where
  "contact_page cs es =
     \<lparr>contactForm = True, controls = cs, errorElements = es,
      successMessage = Some \<lparr>display = ''none''\<rparr>, console = [], timers = [],
      defaultPrevented = False\<rparr>"

definition filled_controls :: "field \<Rightarrow> control option" where
  "filled_controls f =
     Some (case f of
             Name \<Rightarrow> text_control (js ''Ann'')
           | Email \<Rightarrow> text_control (js ''user@example.com'')
           | Subject \<Rightarrow> text_control (js ''Order'')
           | Category \<Rightarrow> text_control (js ''support'')
           | Message \<Rightarrow> text_control (js ''Hello'')
           | Consent \<Rightarrow> checkbox_control True)"

definition blank_errors :: "field \<Rightarrow> error_element option" where
  "blank_errors f = Some blank_error"

section \<open>The predicates\<close>

subsection \<open>The regular expression\<close>

lemma plus_rests_iff:
  "r \<in> set (plus_rests p s) \<longleftrightarrow> (\<exists>pre. pre \<noteq> [] \<and> s = pre @ r \<and> (\<forall>c \<in> set pre. p c))"
proof (induction s)
  case Nil
  then show ?case by simp
next
  case (Cons c cs)
  show ?case
  proof (cases "p c")
    case False
    then show ?thesis by (auto simp: Cons_eq_append_conv)
  next
    case True
    show ?thesis
    proof
      assume "r \<in> set (plus_rests p (c # cs))"
      with True have "r \<in> set (plus_rests p cs) \<or> r = cs" by auto
      then show "\<exists>pre. pre \<noteq> [] \<and> c # cs = pre @ r \<and> (\<forall>c \<in> set pre. p c)"
      proof
        assume "r \<in> set (plus_rests p cs)"
        with Cons.IH obtain pre where "pre \<noteq> []" "cs = pre @ r" "\<forall>c \<in> set pre. p c"
          by blast
        with True show ?thesis by (intro exI[of _ "c # pre"]) simp
      next
        assume "r = cs"
        with True show ?thesis by (intro exI[of _ "[c]"]) simp
      qed
    next
      assume "\<exists>pre. pre \<noteq> [] \<and> c # cs = pre @ r \<and> (\<forall>c \<in> set pre. p c)"
      then obtain pre where pre: "pre \<noteq> []" "c # cs = pre @ r" "\<forall>c \<in> set pre. p c"
        by blast
      then obtain pre' where p': "pre = c # pre'" "cs = pre' @ r" by (cases pre) auto
      show "r \<in> set (plus_rests p (c # cs))"
      proof (cases "pre' = []")
        case True
        with p' \<open>p c\<close> show ?thesis by simp
      next
        case False
        with p' pre have "r \<in> set (plus_rests p cs)" using Cons.IH by auto
        with \<open>p c\<close> show ?thesis by simp
      qed
    qed
  qed
qed

lemma neg_class_email:
  "neg_class_matches [ClassSpace, ClassChar at_sign] = (\<lambda>c. \<not> isWhiteSpace c \<and> c \<noteq> at_sign)"
  by (rule ext) (simp add: neg_class_matches_def)

lemma plus_rests_email:
  "r \<in> set (plus_rests (\<lambda>c. \<not> isWhiteSpace c \<and> c \<noteq> at_sign) s) \<longleftrightarrow>
     (\<exists>pre. pre \<noteq> [] \<and> s = pre @ r \<and> excludes_space_and_at pre)"
  by (simp add: plus_rests_iff excludes_space_and_at_def)

lemma literal_iff: "r \<in> set (match_term (Literal a) s) \<longleftrightarrow> s = a # r"
  by (cases s) auto

lemma match_seq_email:
  "match_seq emailRegex s \<longleftrightarrow>
     (\<exists>r1 \<in> set (plus_rests (\<lambda>c. \<not> isWhiteSpace c \<and> c \<noteq> at_sign) s).
      \<exists>r2 \<in> set (match_term (Literal at_sign) r1).
      \<exists>r3 \<in> set (plus_rests (\<lambda>c. \<not> isWhiteSpace c \<and> c \<noteq> at_sign) r2).
      \<exists>r4 \<in> set (match_term (Literal full_stop) r3).
      [] \<in> set (plus_rests (\<lambda>c. \<not> isWhiteSpace c \<and> c \<noteq> at_sign) r4))"
  by (simp add: emailRegex_def list_ex_iff neg_class_email del: match_term.simps(1,2))

lemma excludes_append [simp]:
  "excludes_space_and_at (a @ b) \<longleftrightarrow> excludes_space_and_at a \<and> excludes_space_and_at b"
  by (auto simp: excludes_space_and_at_def)

lemma excludes_full_stop [simp]:
  "excludes_space_and_at (full_stop # p) \<longleftrightarrow> excludes_space_and_at p"
  by (simp add: excludes_space_and_at_def full_stop_def at_sign_def isWhiteSpace_def)

lemma excludes_at_sign: "excludes_space_and_at s \<Longrightarrow> at_sign \<notin> set s"
  by (auto simp: excludes_space_and_at_def)

lemma regex_email_shape: "regex_test emailRegex s \<longleftrightarrow> email_shape s"
proof
  assume "regex_test emailRegex s"
  then obtain r1 r2 r3 r4 where
    1: "r1 \<in> set (plus_rests (\<lambda>c. \<not> isWhiteSpace c \<and> c \<noteq> at_sign) s)" and
    2: "r2 \<in> set (match_term (Literal at_sign) r1)" and
    3: "r3 \<in> set (plus_rests (\<lambda>c. \<not> isWhiteSpace c \<and> c \<noteq> at_sign) r2)" and
    4: "r4 \<in> set (match_term (Literal full_stop) r3)" and
    5: "[] \<in> set (plus_rests (\<lambda>c. \<not> isWhiteSpace c \<and> c \<noteq> at_sign) r4)"
    unfolding regex_test_def match_seq_email by blast
  from 1 obtain l where l: "l \<noteq> []" "s = l @ r1" "excludes_space_and_at l"
    unfolding plus_rests_email by blast
  from 2 have r1: "r1 = at_sign # r2" unfolding literal_iff .
  from 3 obtain d where d: "d \<noteq> []" "r2 = d @ r3" "excludes_space_and_at d"
    unfolding plus_rests_email by blast
  from 4 have r3: "r3 = full_stop # r4" unfolding literal_iff .
  from 5 have p: "r4 \<noteq> []" "excludes_space_and_at r4"
    unfolding plus_rests_email by auto
  have "s = l @ [at_sign] @ (d @ [full_stop] @ r4)"
    using l r1 d r3 by simp
  moreover have "excludes_space_and_at (d @ [full_stop] @ r4)"
    using d p by simp
  ultimately show "email_shape s"
    unfolding email_shape_def using l d p by blast
next
  assume "email_shape s"
  then obtain l dom d p where s: "s = l @ [at_sign] @ dom" and l: "l \<noteq> []" "excludes_space_and_at l"
    and dom: "excludes_space_and_at dom" "dom = d @ [full_stop] @ p" and ne: "d \<noteq> []" "p \<noteq> []"
    unfolding email_shape_def by blast
  from dom have ok: "excludes_space_and_at d" "excludes_space_and_at p" by simp_all
  have 1: "at_sign # d @ full_stop # p \<in> set (plus_rests (\<lambda>c. \<not> isWhiteSpace c \<and> c \<noteq> at_sign) s)"
    unfolding plus_rests_email using s l dom by auto
  have 2: "d @ full_stop # p \<in> set (match_term (Literal at_sign) (at_sign # d @ full_stop # p))"
    unfolding literal_iff by simp
  have 3: "full_stop # p \<in> set (plus_rests (\<lambda>c. \<not> isWhiteSpace c \<and> c \<noteq> at_sign) (d @ full_stop # p))"
    unfolding plus_rests_email using ne ok by blast
  have 4: "p \<in> set (match_term (Literal full_stop) (full_stop # p))"
    unfolding literal_iff by simp
  have 5: "[] \<in> set (plus_rests (\<lambda>c. \<not> isWhiteSpace c \<and> c \<noteq> at_sign) p)"
    unfolding plus_rests_email using ne ok by auto
  from 1 2 3 4 5 show "regex_test emailRegex s"
    unfolding regex_test_def match_seq_email by blast
qed

lemma email_shape_has_at: "email_shape s \<Longrightarrow> at_sign \<in> set s"
  by (auto simp: email_shape_def)

lemma email_shape_stop_after_at:
  assumes "email_shape s"
  shows "full_stop \<in> set (dropWhile (\<lambda>c. c \<noteq> at_sign) s)"
proof -
  from assms obtain l dom d p where s: "s = l @ [at_sign] @ dom" and l: "excludes_space_and_at l"
    and dom: "dom = d @ [full_stop] @ p"
    unfolding email_shape_def by blast
  from l have "\<forall>c \<in> set l. c \<noteq> at_sign" by (auto simp: excludes_space_and_at_def)
  then have "dropWhile (\<lambda>c. c \<noteq> at_sign) s = at_sign # dom"
    using s by (simp add: dropWhile_append3)
  with dom show ?thesis by simp
qed

lemmas email_eval =
  isValidEmail_def regex_test_def emailRegex_def ToString_def js_def neg_class_matches_def
  isWhiteSpace_def at_sign_def full_stop_def

lemma email_user_example_com: "isValidEmail (JString (js ''user@example.com'')) = Inr True"
  by (simp add: email_eval)

lemma email_user_example: "isValidEmail (JString (js ''user@example'')) = Inr False"
  by (simp add: email_eval)

lemma email_user_space_example_com: "isValidEmail (JString (js ''user example.com'')) = Inr False"
  by (simp add: email_eval)

text \<open>
  Claim C4. For every string, \<open>isValidEmail\<close> returns true exactly when the string has
  the shape \<open>local-part@domain.part\<close>, the local part and the domain free of white space
  and \<open>@\<close>, the domain containing a \<open>.\<close>. A string without an \<open>@\<close>, or without a \<open>.\<close>
  after the \<open>@\<close>, is rejected; \<open>user@example.com\<close> is accepted, \<open>user@example\<close> and
  \<open>user example.com\<close> are rejected.
\<close>

theorem isValidEmail_shape:
  "isValidEmail (JString s) = Inr (email_shape s)
   \<and> (at_sign \<notin> set s \<longrightarrow> isValidEmail (JString s) = Inr False)
   \<and> (full_stop \<notin> set (dropWhile (\<lambda>c. c \<noteq> at_sign) s) \<longrightarrow> isValidEmail (JString s) = Inr False)
   \<and> isValidEmail (JString (js ''user@example.com'')) = Inr True
   \<and> isValidEmail (JString (js ''user@example'')) = Inr False
   \<and> isValidEmail (JString (js ''user example.com'')) = Inr False"
proof -
  have eq: "isValidEmail (JString s) = Inr (email_shape s)"
    by (simp add: isValidEmail_def ToString_def regex_email_shape)
  have "at_sign \<notin> set s \<longrightarrow> \<not> email_shape s"
    using email_shape_has_at by blast
  moreover have "full_stop \<notin> set (dropWhile (\<lambda>c. c \<noteq> at_sign) s) \<longrightarrow> \<not> email_shape s"
    using email_shape_stop_after_at by blast
  ultimately show ?thesis
    using eq email_user_example_com email_user_example email_user_space_example_com by simp
qed

theorem isValidEmail_shape_witness:
  "email_shape (js ''a@b.c'') \<and> isValidEmail (JString (js ''a@b.c'')) = Inr True
   \<and> at_sign \<notin> set (js ''ab.c'') \<and> isValidEmail (JString (js ''ab.c'')) = Inr False
   \<and> full_stop \<notin> set (dropWhile (\<lambda>c. c \<noteq> at_sign) (js ''a.b@c''))
   \<and> isValidEmail (JString (js ''a.b@c'')) = Inr False"
proof -
  have 1: "isValidEmail (JString (js ''a@b.c'')) = Inr True"
    by (simp add: email_eval)
  have 2: "at_sign \<notin> set (js ''ab.c'')"
    by (simp add: js_def at_sign_def)
  have 3: "full_stop \<notin> set (dropWhile (\<lambda>c. c \<noteq> at_sign) (js ''a.b@c''))"
    by (simp add: js_def at_sign_def full_stop_def)
  have "email_shape (js ''a@b.c'')"
    using 1 isValidEmail_shape [of "js ''a@b.c''"] by (simp del: dropWhile.simps)
  moreover have "isValidEmail (JString (js ''ab.c'')) = Inr False"
    using 2 isValidEmail_shape [of "js ''ab.c''"] by blast
  moreover have "isValidEmail (JString (js ''a.b@c'')) = Inr False"
    using 3 isValidEmail_shape [of "js ''a.b@c''"] by blast
  ultimately show ?thesis using 1 2 3 by blast
qed

subsection \<open>The required-field predicate\<close>

lemma dropWhile_all_iff: "(\<forall>c \<in> set (dropWhile P s). P c) \<longleftrightarrow> (\<forall>c \<in> set s. P c)"
  by (induction s) auto

lemma trim_empty_iff: "trim s = [] \<longleftrightarrow> (\<forall>c \<in> set s. isWhiteSpace c)"
  by (simp add: trim_def dropWhile_eq_Nil_conv dropWhile_all_iff)

text \<open>
  Claim C6. The required-field predicate, the one the table gives to \<open>name\<close>,
  \<open>subject\<close>, \<open>category\<close> and \<open>message\<close>, returns false for every string whose trimmed
  length is 0 and true for every string whose trimmed length is greater than 0; that is,
  it accepts exactly the strings with a code unit that is not white space.
\<close>

theorem isFieldValid_trimmed:
  "(length (trim s) = 0 \<longrightarrow> isFieldValid (JString s) = Inr False)
   \<and> (length (trim s) > 0 \<longrightarrow> isFieldValid (JString s) = Inr True)
   \<and> isFieldValid (JString s) = Inr (\<exists>c \<in> set s. \<not> isWhiteSpace c)
   \<and> (\<forall>f \<in> {Name, Subject, Category, Message}. validate f st = isFieldValid)"
proof -
  have "isFieldValid (JString s) = Inr (trim s \<noteq> [])" by simp
  then have "isFieldValid (JString s) = Inr (\<exists>c \<in> set s. \<not> isWhiteSpace c)"
    by (simp add: trim_empty_iff)
  moreover have "\<forall>f \<in> {Name, Subject, Category, Message}. validate f st = isFieldValid"
    by (auto intro!: ext)
  ultimately show ?thesis by simp
qed

theorem isFieldValid_trimmed_witness:
  "length (trim (js ''  '')) = 0 \<and> isFieldValid (JString (js ''  '')) = Inr False
   \<and> length (trim (js '' Ann '')) > 0 \<and> isFieldValid (JString (js '' Ann '')) = Inr True
   \<and> trim (js '' Ann '') = js ''Ann''
   \<and> validate Subject (contact_page filled_controls blank_errors) = isFieldValid"
proof -
  have 1: "trim (js ''  '') = []" "trim (js '' Ann '') = js ''Ann''"
    by (simp_all add: trim_def js_def isWhiteSpace_def)
  from 1 isFieldValid_trimmed [of "js ''  ''" "contact_page filled_controls blank_errors"]
    isFieldValid_trimmed [of "js '' Ann ''" "contact_page filled_controls blank_errors"]
  show ?thesis by (simp add: js_def)
qed

section \<open>The error presenter\<close>

lemma showFieldError_frame [simp]:
  "contactForm (showFieldError f m s) = contactForm s"
  "controls (showFieldError f m s) = controls s"
  "successMessage (showFieldError f m s) = successMessage s"
  "console (showFieldError f m s) = console s"
  "timers (showFieldError f m s) = timers s"
  "defaultPrevented (showFieldError f m s) = defaultPrevented s"
  by (simp_all add: showFieldError_def split: option.splits)

lemma clearFieldError_frame [simp]:
  "contactForm (clearFieldError f s) = contactForm s"
  "controls (clearFieldError f s) = controls s"
  "successMessage (clearFieldError f s) = successMessage s"
  "console (clearFieldError f s) = console s"
  "timers (clearFieldError f s) = timers s"
  "defaultPrevented (clearFieldError f s) = defaultPrevented s"
  by (simp_all add: clearFieldError_def split: option.splits)

lemma errorElements_showFieldError:
  "errorElements (showFieldError f m s) =
     (errorElements s)(f := map_option (shown_element m) (errorElements s f))"
  by (auto simp: showFieldError_def shown_element_def split: option.splits)

lemma errorElements_clearFieldError:
  "errorElements (clearFieldError f s) =
     (errorElements s)(f := map_option cleared_element (errorElements s f))"
  by (auto simp: clearFieldError_def cleared_element_def split: option.splits)

lemma showFieldError_eq:
  "showFieldError f m s = s\<lparr>errorElements := errorElements (showFieldError f m s)\<rparr>"
  by (simp add: showFieldError_def split: option.splits)

lemma clearFieldError_eq:
  "clearFieldError f s = s\<lparr>errorElements := errorElements (clearFieldError f s)\<rparr>"
  by (simp add: clearFieldError_def split: option.splits)

lemma clearFieldError_alt:
  "clearFieldError f s =
     s\<lparr>errorElements := (errorElements s)(f := map_option cleared_element (errorElements s f))\<rparr>"
  by (cases "errorElements s f")
     (simp_all add: clearFieldError_def cleared_element_def fun_upd_idem)

lemma cleared_element_idem [simp]: "cleared_element (cleared_element e) = cleared_element e"
  by (simp add: cleared_element_def classList_remove_def)

lemma cleared_element_noop:
  "textContent e = [] \<Longrightarrow> ''show'' \<notin> set (classList e) \<Longrightarrow> cleared_element e = e"
  by (simp add: cleared_element_def classList_remove_def)

text \<open>
  Claim C9. Clearing the error of a field that has no active error annotation changes
  nothing: the text and the class list of its error element stay as they are (the page is
  the same page), and \<open>clearFieldError\<close>, which guards against the absent element, raises
  nothing. Put otherwise, \<open>clearFieldError\<close> is idempotent.
\<close>

theorem clearFieldError_idempotent:
  "clearFieldError f (clearFieldError f s) = clearFieldError f s
   \<and> (no_active_error s f \<longrightarrow> clearFieldError f s = s)"
proof -
  have "clearFieldError f (clearFieldError f s) = clearFieldError f s"
    by (simp add: clearFieldError_alt option.map_comp comp_def)
  moreover have "clearFieldError f s = s" if "no_active_error s f"
  proof (cases "errorElements s f")
    case None
    then show ?thesis by (simp add: clearFieldError_def)
  next
    case (Some e)
    with that have "cleared_element e = e"
      by (simp add: no_active_error_def cleared_element_noop)
    with Some have
      "(errorElements s)(f := map_option cleared_element (errorElements s f)) = errorElements s"
      by (simp add: fun_upd_idem)
    then show ?thesis by (simp add: clearFieldError_alt)
  qed
  ultimately show ?thesis by blast
qed

theorem clearFieldError_idempotent_witness:
  "no_active_error (contact_page filled_controls blank_errors) Name
   \<and> clearFieldError Name (contact_page filled_controls blank_errors) =
       contact_page filled_controls blank_errors
   \<and> clearFieldError Name (clearFieldError Name
         (showFieldError Name (errorMsg Name) (contact_page filled_controls blank_errors))) =
       clearFieldError Name
         (showFieldError Name (errorMsg Name) (contact_page filled_controls blank_errors))"
proof -
  have "no_active_error (contact_page filled_controls blank_errors) Name"
    by (simp add: no_active_error_def contact_page_def blank_errors_def blank_error_def)
  with clearFieldError_idempotent [of Name "contact_page filled_controls blank_errors"]
    clearFieldError_idempotent [of Name
      "showFieldError Name (errorMsg Name) (contact_page filled_controls blank_errors)"]
  show ?thesis by blast
qed

section \<open>The submit pass\<close>

lemma field_in_fieldIds [simp]: "f \<in> set fieldIds"
  by (cases f) (simp_all add: fieldIds_def)

lemma distinct_fieldIds [simp]: "distinct fieldIds"
  by (simp add: fieldIds_def)

lemma check_field_controls:
  "controls s' = controls s \<Longrightarrow> check_field f s' = check_field f s"
  by (cases f) (simp_all add: check_field_def split: option.splits)

lemma check_field_show [simp]: "check_field f (showFieldError g m s) = check_field f s"
  by (rule check_field_controls) simp

lemma check_field_clear [simp]: "check_field f (clearFieldError g s) = check_field f s"
  by (rule check_field_controls) simp

text \<open>The loop touches the error elements only.\<close>

lemma validate_all_frame:
  "validate_all fs s v = (s', r) \<Longrightarrow> s' = s\<lparr>errorElements := errorElements s'\<rparr>"
proof (induction fs arbitrary: s v)
  case Nil
  then show ?case by auto
next
  case (Cons f fs)
  show ?case
  proof (cases "check_field f s")
    case (Inl e)
    with Cons.prems show ?thesis by auto
  next
    case (Inr ok)
    show ?thesis
    proof (cases ok)
      case True
      with Inr Cons.prems have "validate_all fs (clearFieldError f s) v = (s', r)" by simp
      from Cons.IH [OF this]
      have "s' = (clearFieldError f s)\<lparr>errorElements := errorElements s'\<rparr>" .
      then show ?thesis by (subst (asm) clearFieldError_eq) simp
    next
      case False
      with Inr Cons.prems
      have "validate_all fs (showFieldError f (errorMsg f) s) False = (s', r)" by simp
      from Cons.IH [OF this]
      have "s' = (showFieldError f (errorMsg f) s)\<lparr>errorElements := errorElements s'\<rparr>" .
      then show ?thesis by (subst (asm) showFieldError_eq) simp
    qed
  qed
qed

text \<open>\<open>isFormValid\<close> ends true exactly when every predicate returned true.\<close>

lemma validate_all_valid_iff:
  "snd (validate_all fs s v) = Inr True \<longleftrightarrow> v \<and> (\<forall>f \<in> set fs. check_field f s = Inr True)"
proof (induction fs arbitrary: s v)
  case Nil
  then show ?case by simp
next
  case (Cons f fs)
  show ?case
  proof (cases "check_field f s")
    case (Inl e)
    then show ?thesis by simp
  next
    case (Inr ok)
    then show ?thesis by (cases ok) (simp_all add: Cons.IH)
  qed
qed

text \<open>When every predicate returns a boolean the loop runs to its end.\<close>

lemma validate_all_total:
  "\<forall>f \<in> set fs. \<exists>b. check_field f s = Inr b \<Longrightarrow>
     snd (validate_all fs s v) = Inr (v \<and> (\<forall>f \<in> set fs. check_field f s = Inr True))"
proof (induction fs arbitrary: s v)
  case Nil
  then show ?case by simp
next
  case (Cons f fs)
  from Cons.prems obtain ok where ok: "check_field f s = Inr ok" by auto
  from Cons.prems have rest: "\<forall>g \<in> set fs. \<exists>b. check_field g s = Inr b" by simp
  show ?case
  proof (cases ok)
    case True
    have "\<forall>g \<in> set fs. \<exists>b. check_field g (clearFieldError f s) = Inr b"
      using rest by simp
    from Cons.IH [OF this] ok True show ?thesis by simp
  next
    case False
    have "\<forall>g \<in> set fs. \<exists>b. check_field g (showFieldError f (errorMsg f) s) = Inr b"
      using rest by simp
    from Cons.IH [OF this] ok False show ?thesis by simp
  qed
qed

lemma validate_all_errors:
  "distinct fs \<Longrightarrow> \<forall>f \<in> set fs. \<exists>b. check_field f s = Inr b \<Longrightarrow>
     errorElements (fst (validate_all fs s v)) f =
       (if f \<in> set fs then annotation_after s f else errorElements s f)"
proof (induction fs arbitrary: s v)
  case Nil
  then show ?case by simp
next
  case (Cons g fs)
  from Cons.prems obtain ok where ok: "check_field g s = Inr ok" by auto
  from Cons.prems have rest: "\<forall>h \<in> set fs. \<exists>b. check_field h s = Inr b"
    and d: "distinct fs" "g \<notin> set fs"
    by simp_all
  show ?case
  proof (cases ok)
    case True
    let ?s1 = "clearFieldError g s"
    have "\<forall>h \<in> set fs. \<exists>b. check_field h ?s1 = Inr b" using rest by simp
    from Cons.IH [OF d(1) this, of v]
    have "errorElements (fst (validate_all fs ?s1 v)) f =
       (if f \<in> set fs then annotation_after ?s1 f else errorElements ?s1 f)" .
    with ok True d show ?thesis
      by (auto simp: annotation_after_def errorElements_clearFieldError)
  next
    case False
    let ?s1 = "showFieldError g (errorMsg g) s"
    have "\<forall>h \<in> set fs. \<exists>b. check_field h ?s1 = Inr b" using rest by simp
    from Cons.IH [OF d(1) this, of False]
    have "errorElements (fst (validate_all fs ?s1 False)) f =
       (if f \<in> set fs then annotation_after ?s1 f else errorElements ?s1 f)" .
    with ok False d show ?thesis
      by (auto simp: annotation_after_def errorElements_showFieldError)
  qed
qed

lemmas page_eval =
  contact_page_def filled_controls_def blank_errors_def blank_error_def text_control_def
  checkbox_control_def check_field_def current_value_def

text \<open>
  Claim C10. On every submit in which the predicate of at least one field fails, none of
  the effects of the success path occurs: the success message keeps its visibility, no
  control changes its value, nothing is logged and no timer is scheduled. The page after
  the submit differs from the page before it in the error annotations only (and the
  event has its default prevented).
\<close>

theorem failed_submit_no_success_effects:
  assumes "check_field f s = Inr False" and "submit_listener s = (s', r)"
  shows "successMessage s' = successMessage s \<and> controls s' = controls s
     \<and> console s' = console s \<and> timers s' = timers s
     \<and> s' = s\<lparr>errorElements := errorElements s', defaultPrevented := True\<rparr>"
proof -
  let ?s0 = "s\<lparr>defaultPrevented := True\<rparr>"
  obtain s1 r1 where va: "validate_all fieldIds ?s0 True = (s1, r1)"
    by (cases "validate_all fieldIds ?s0 True")
  have "check_field f ?s0 = Inr False"
    using assms(1) check_field_controls [of ?s0 s f] by simp
  then have "\<not> (\<forall>g \<in> set fieldIds. check_field g ?s0 = Inr True)"
    by (metis field_in_fieldIds Inr_inject)
  then have "snd (validate_all fieldIds ?s0 True) \<noteq> Inr True"
    by (simp add: validate_all_valid_iff)
  with va have "r1 \<noteq> Inr True" by simp
  with va assms(2) have "s' = s1"
    by (cases r1) (auto simp: submit_listener_def)
  moreover from validate_all_frame [OF va]
  have "s1 = ?s0\<lparr>errorElements := errorElements s1\<rparr>" .
  ultimately have eq: "s' = ?s0\<lparr>errorElements := errorElements s'\<rparr>" by simp
  have "successMessage s' = successMessage s" by (subst eq) simp
  moreover have "controls s' = controls s" by (subst eq) simp
  moreover have "console s' = console s" by (subst eq) simp
  moreover have "timers s' = timers s" by (subst eq) simp
  moreover have "s' = s\<lparr>errorElements := errorElements s', defaultPrevented := True\<rparr>"
    by (subst eq) simp
  ultimately show ?thesis by blast
qed

theorem failed_submit_no_success_effects_witness:
  "check_field Consent
     (contact_page (filled_controls(Consent \<mapsto> checkbox_control False)) blank_errors) = Inr False
   \<and> console (fst (submit_listener
       (contact_page (filled_controls(Consent \<mapsto> checkbox_control False)) blank_errors))) = []
   \<and> timers (fst (submit_listener
       (contact_page (filled_controls(Consent \<mapsto> checkbox_control False)) blank_errors))) = []
   \<and> successMessage (fst (submit_listener
       (contact_page (filled_controls(Consent \<mapsto> checkbox_control False)) blank_errors))) =
      Some \<lparr>display = ''none''\<rparr>"
proof -
  let ?p = "contact_page (filled_controls(Consent \<mapsto> checkbox_control False)) blank_errors"
  have c: "check_field Consent ?p = Inr False" by (simp add: page_eval)
  have "submit_listener ?p = (fst (submit_listener ?p), snd (submit_listener ?p))" by simp
  from failed_submit_no_success_effects [OF c this] c
  show ?thesis by (simp add: contact_page_def)
qed

lemma check_field_present: "check_field f s = Inr b \<Longrightarrow> controls s f \<noteq> None"
  by (auto simp: check_field_def split: option.splits)

lemma read_payload_present:
  "\<forall>k \<in> set ks. controls s k \<noteq> None \<Longrightarrow> \<exists>payload. read_payload ks s = Inr payload"
  by (induction ks) (auto split: option.splits sum.splits)

lemma form_reset_present [simp]: "controls (form_reset s) k = None \<longleftrightarrow> controls s k = None"
  by (simp add: form_reset_def)

lemma success_path_effects:
  assumes "\<forall>k. controls s k \<noteq> None"
  shows "\<exists>s'. success_path s = (s', None) \<and> success_effects s s'
           \<and> errorElements s' = errorElements s \<and> defaultPrevented s' = defaultPrevented s"
proof -
  let ?s1 = "case successMessage s of None \<Rightarrow> s
             | Some m \<Rightarrow> s\<lparr>successMessage := Some (m\<lparr>display := ''block''\<rparr>)\<rparr>"
  let ?s2 = "form_reset ?s1"
  let ?s3 = "?s2\<lparr>timers := timers ?s2 @ [(5000, HideSuccessMessage)]\<rparr>"
  let ?s4 = "?s3\<lparr>console := console ?s3 @ [LogText ''Form submitted successfully'']\<rparr>"
  have c4: "controls ?s4 = controls (form_reset s)"
    by (simp add: form_reset_def split: option.splits)
  then have "\<forall>k \<in> set [Name, Email, Subject, Category, Message]. controls ?s4 k \<noteq> None"
    using assms by simp
  from read_payload_present [OF this] obtain payload where
    p: "read_payload [Name, Email, Subject, Category, Message] ?s4 = Inr payload" by blast
  have sp: "success_path s = (?s4\<lparr>console := console ?s4 @ [LogObject payload]\<rparr>, None)"
    unfolding success_path_def Let_def using p by simp
  have "success_effects s (?s4\<lparr>console := console ?s4 @ [LogObject payload]\<rparr>)"
    using c4 by (simp add: success_effects_def form_reset_def split: option.splits)
  moreover have "errorElements (?s4\<lparr>console := console ?s4 @ [LogObject payload]\<rparr>) = errorElements s"
    by (simp add: form_reset_def split: option.splits)
  moreover have "defaultPrevented (?s4\<lparr>console := console ?s4 @ [LogObject payload]\<rparr>) = defaultPrevented s"
    by (simp add: form_reset_def split: option.splits)
  ultimately show ?thesis using sp by blast
qed

lemma submit_listener_total:
  assumes "\<forall>f. \<exists>b. check_field f s = Inr b"
  shows "\<exists>s'. submit_listener s = (s', None) \<and> defaultPrevented s'
     \<and> (\<forall>f. errorElements s' f = annotation_after s f)
     \<and> (success_effects s s' \<longleftrightarrow> (\<forall>f. check_field f s = Inr True))"
proof -
  let ?s0 = "s\<lparr>defaultPrevented := True\<rparr>"
  have cf: "check_field f ?s0 = check_field f s" for f
    by (rule check_field_controls) simp
  have all: "\<forall>f \<in> set fieldIds. \<exists>b. check_field f ?s0 = Inr b" using assms cf by simp
  obtain s1 r1 where va: "validate_all fieldIds ?s0 True = (s1, r1)"
    by (cases "validate_all fieldIds ?s0 True")
  have "(\<forall>f \<in> set fieldIds. check_field f s = Inr True) \<longleftrightarrow> (\<forall>f. check_field f s = Inr True)"
    using field_in_fieldIds by blast
  with validate_all_total [OF all, of True] va
  have r1: "r1 = Inr (\<forall>f. check_field f s = Inr True)" by (simp add: cf)
  from validate_all_frame [OF va] have fr: "s1 = ?s0\<lparr>errorElements := errorElements s1\<rparr>" .
  have err: "errorElements s1 f = annotation_after s f" for f
    using validate_all_errors [OF distinct_fieldIds all, of True f] va
    by (simp add: annotation_after_def cf)
  have dp: "defaultPrevented s1" by (subst fr) simp
  have c1: "controls s1 = controls s" by (subst fr) simp
  have t1: "timers s1 = timers s" by (subst fr) simp
  have m1: "successMessage s1 = successMessage s" by (subst fr) simp
  have l1: "console s1 = console s" by (subst fr) simp
  show ?thesis
  proof (cases "\<forall>f. check_field f s = Inr True")
    case True
    then have "\<forall>k. controls s1 k \<noteq> None" using check_field_present c1 by metis
    from success_path_effects [OF this] obtain s' where
      s': "success_path s1 = (s', None)" "success_effects s1 s'"
          "errorElements s' = errorElements s1" "defaultPrevented s' = defaultPrevented s1"
      by blast
    have "success_effects s s'"
      using s'(2) c1 t1 m1 l1 by (simp add: success_effects_def form_reset_def)
    moreover from r1 True have "r1 = Inr True" by simp
    with va s'(1) have "submit_listener s = (s', None)"
      by (simp add: submit_listener_def)
    ultimately show ?thesis using True s'(3,4) dp err by auto
  next
    case False
    with r1 have "r1 = Inr False" by simp
    with va have "submit_listener s = (s1, None)"
      by (simp add: submit_listener_def)
    moreover have "\<not> success_effects s s1"
      using t1 by (simp add: success_effects_def)
    ultimately show ?thesis using False dp err by auto
  qed
qed

lemma submit_listener_failed:
  assumes "\<not> (\<forall>f. check_field f s = Inr True)"
  shows "fst (submit_listener s) =
           s\<lparr>defaultPrevented := True, errorElements := errorElements (fst (submit_listener s))\<rparr>"
proof -
  let ?s0 = "s\<lparr>defaultPrevented := True\<rparr>"
  obtain s1 r1 where va: "validate_all fieldIds ?s0 True = (s1, r1)"
    by (cases "validate_all fieldIds ?s0 True")
  have cf: "check_field f ?s0 = check_field f s" for f
    by (rule check_field_controls) simp
  from assms have "\<not> (\<forall>g \<in> set fieldIds. check_field g ?s0 = Inr True)"
    using field_in_fieldIds by (auto simp: cf)
  then have "snd (validate_all fieldIds ?s0 True) \<noteq> Inr True"
    by (simp add: validate_all_valid_iff)
  with va have "r1 \<noteq> Inr True" by simp
  with va have "fst (submit_listener s) = s1"
    by (cases r1) (auto simp: submit_listener_def)
  moreover from validate_all_frame [OF va]
  have "s1 = ?s0\<lparr>errorElements := errorElements s1\<rparr>" .
  ultimately show ?thesis by simp
qed

lemma submit_success_iff:
  "defaultPrevented (fst (submit_listener s))
   \<and> (success_effects s (fst (submit_listener s)) \<longleftrightarrow> (\<forall>f. check_field f s = Inr True))"
proof (cases "\<forall>f. check_field f s = Inr True")
  case True
  then have "\<forall>f. \<exists>b. check_field f s = Inr b" by blast
  from submit_listener_total [OF this] True show ?thesis by auto
next
  case False
  let ?s' = "fst (submit_listener s)"
  from submit_listener_failed [OF False]
  have eq: "?s' = s\<lparr>defaultPrevented := True, errorElements := errorElements ?s'\<rparr>" .
  have "defaultPrevented ?s'" by (subst eq) simp
  moreover have "timers ?s' = timers s" by (subst eq) simp
  then have "\<not> success_effects s ?s'" by (simp add: success_effects_def)
  ultimately show ?thesis using False by simp
qed

subsection \<open>Annotations after the pass\<close>

lemma error_shown_shown_element:
  "errorElements s' f = map_option (shown_element (errorMsg f)) (errorElements s f) \<Longrightarrow>
   errorElements s f \<noteq> None \<Longrightarrow> error_shown s' f"
  by (auto simp: error_shown_def shown_element_def classList_add_def)

lemma error_active_shown_element:
  "errorElements s' f = map_option (shown_element m) (errorElements s f) \<Longrightarrow>
   errorElements s f \<noteq> None \<Longrightarrow> error_active s' f"
  by (auto simp: error_active_def shown_element_def classList_add_def)

lemma not_active_cleared_element:
  "errorElements s' f = map_option cleared_element (errorElements s f) \<Longrightarrow> \<not> error_active s' f"
  by (auto simp: error_active_def cleared_element_def classList_remove_def split: option.splits)

lemma no_active_error_cleared:
  "no_active_error s f \<Longrightarrow> map_option cleared_element (errorElements s f) = errorElements s f"
  by (auto simp: no_active_error_def cleared_element_noop split: option.splits)

lemmas submit_eval =
  submit_listener_def fieldIds_def page_eval email_eval trim_def success_path_def
  form_reset_def clearFieldError_def showFieldError_def classList_add_def classList_remove_def
  Let_def

text \<open>
  Claim C5, as the code has it. On every submit the default submission is prevented, and
  the success path is taken exactly when the predicate of every field passes; with
  \<open>consent\<close> unchecked it is never taken. When the predicate of every field returns a
  boolean (all six controls are there), the pass evaluates them all, with no stop at the
  first failure: the error of every failing field that has an error element is shown,
  and no passing field is left with an active error.
\<close>

theorem submit_validates_every_field:
  "defaultPrevented (fst (submit_listener s))
   \<and> (success_effects s (fst (submit_listener s)) \<longleftrightarrow> (\<forall>f. check_field f s = Inr True))
   \<and> (\<forall>el. controls s Consent = Some el \<and> \<not> el_checked el \<longrightarrow>
          \<not> success_effects s (fst (submit_listener s)))
   \<and> ((\<forall>f. \<exists>b. check_field f s = Inr b) \<longrightarrow>
        snd (submit_listener s) = None
        \<and> (\<forall>f. check_field f s = Inr False \<and> errorElements s f \<noteq> None \<longrightarrow>
               error_shown (fst (submit_listener s)) f)
        \<and> (\<forall>f. check_field f s = Inr True \<longrightarrow> \<not> error_active (fst (submit_listener s)) f))"
proof -
  let ?s' = "fst (submit_listener s)"
  note gen = submit_success_iff [of s]
  have consent: "\<not> success_effects s ?s'" if "controls s Consent = Some el" "\<not> el_checked el" for el
  proof -
    from that have "check_field Consent s = Inr False" by (simp add: check_field_def)
    then have "\<not> (\<forall>f. check_field f s = Inr True)" by (metis Inr_inject)
    with gen show ?thesis by simp
  qed
  have tot: "snd (submit_listener s) = None
        \<and> (\<forall>f. check_field f s = Inr False \<and> errorElements s f \<noteq> None \<longrightarrow> error_shown ?s' f)
        \<and> (\<forall>f. check_field f s = Inr True \<longrightarrow> \<not> error_active ?s' f)"
    if all: "\<forall>f. \<exists>b. check_field f s = Inr b"
  proof -
    from submit_listener_total [OF all] obtain s' where
      s': "submit_listener s = (s', None)" "\<forall>f. errorElements s' f = annotation_after s f"
      by blast
    have "error_shown s' f" if "check_field f s = Inr False" "errorElements s f \<noteq> None" for f
      using that s'(2) by (intro error_shown_shown_element) (simp_all add: annotation_after_def)
    moreover have "\<not> error_active s' f" if "check_field f s = Inr True" for f
      using that s'(2) by (intro not_active_cleared_element) (simp add: annotation_after_def)
    ultimately show ?thesis using s'(1) by simp
  qed
  from gen consent tot show ?thesis by blast
qed

text \<open>
  A failing field without an error element: \<open>showFieldError\<close> finds no element and shows
  nothing.
\<close>

theorem submit_missing_error_element:
  "check_field Subject (contact_page (filled_controls(Subject \<mapsto> text_control []))
      (blank_errors(Subject := None))) = Inr False
   \<and> snd (submit_listener (contact_page (filled_controls(Subject \<mapsto> text_control []))
      (blank_errors(Subject := None)))) = None
   \<and> \<not> error_shown (fst (submit_listener (contact_page (filled_controls(Subject \<mapsto> text_control []))
      (blank_errors(Subject := None))))) Subject"
  by (simp add: submit_eval error_shown_def)

theorem submit_validates_every_field_witness:
  "check_field Subject (contact_page
      (filled_controls(Subject \<mapsto> text_control [], Consent \<mapsto> checkbox_control False)) blank_errors) = Inr False
   \<and> check_field Consent (contact_page
      (filled_controls(Subject \<mapsto> text_control [], Consent \<mapsto> checkbox_control False)) blank_errors) = Inr False
   \<and> snd (submit_listener (contact_page
      (filled_controls(Subject \<mapsto> text_control [], Consent \<mapsto> checkbox_control False)) blank_errors)) = None
   \<and> defaultPrevented (fst (submit_listener (contact_page
      (filled_controls(Subject \<mapsto> text_control [], Consent \<mapsto> checkbox_control False)) blank_errors)))
   \<and> error_shown (fst (submit_listener (contact_page
      (filled_controls(Subject \<mapsto> text_control [], Consent \<mapsto> checkbox_control False)) blank_errors))) Subject
   \<and> error_shown (fst (submit_listener (contact_page
      (filled_controls(Subject \<mapsto> text_control [], Consent \<mapsto> checkbox_control False)) blank_errors))) Consent
   \<and> check_field Name (contact_page
      (filled_controls(Subject \<mapsto> text_control [], Consent \<mapsto> checkbox_control False)) blank_errors) = Inr True
   \<and> \<not> error_active (fst (submit_listener (contact_page
      (filled_controls(Subject \<mapsto> text_control [], Consent \<mapsto> checkbox_control False)) blank_errors))) Name
   \<and> \<not> success_effects
       (contact_page (filled_controls(Subject \<mapsto> text_control [], Consent \<mapsto> checkbox_control False)) blank_errors)
       (fst (submit_listener (contact_page
      (filled_controls(Subject \<mapsto> text_control [], Consent \<mapsto> checkbox_control False)) blank_errors)))
   \<and> success_effects (contact_page filled_controls blank_errors)
       (fst (submit_listener (contact_page filled_controls blank_errors)))"
proof -
  let ?p = "contact_page
      (filled_controls(Subject \<mapsto> text_control [], Consent \<mapsto> checkbox_control False)) blank_errors"
  let ?q = "contact_page filled_controls blank_errors"
  have all: "\<forall>f. \<exists>b. check_field f ?p = Inr b"
  proof
    fix f show "\<exists>b. check_field f ?p = Inr b"
      by (cases f) (auto simp add: page_eval isValidEmail_def)
  qed
  have s: "check_field Subject ?p = Inr False" by (simp add: page_eval trim_def)
  have c: "check_field Consent ?p = Inr False" by (simp add: page_eval)
  have e: "errorElements ?p Subject \<noteq> None" "errorElements ?p Consent \<noteq> None"
    by (simp_all add: page_eval)
  have k: "controls ?p Consent = Some (checkbox_control False)" "\<not> el_checked (checkbox_control False)"
    by (simp_all add: page_eval)
  have q: "\<forall>f. check_field f ?q = Inr True"
  proof
    fix f show "check_field f ?q = Inr True"
      by (cases f) (simp_all add: page_eval email_eval trim_def)
  qed
  have n: "check_field Name ?p = Inr True" by (simp add: page_eval trim_def js_def isWhiteSpace_def)
  from submit_validates_every_field [of ?p] all s c e k n
  have "snd (submit_listener ?p) = None" "defaultPrevented (fst (submit_listener ?p))"
    "error_shown (fst (submit_listener ?p)) Subject" "error_shown (fst (submit_listener ?p)) Consent"
    "\<not> success_effects ?p (fst (submit_listener ?p))"
    "\<not> error_active (fst (submit_listener ?p)) Name"
    by blast+
  moreover from submit_validates_every_field [of ?q] q
  have "success_effects ?q (fst (submit_listener ?q))" by blast
  ultimately show ?thesis using s c n by blast
qed

text \<open>
  Claim C8, as the code has it. On every submit in which the predicate of exactly one
  field fails and those of the others pass, the error of the failing field is shown if it
  has an error element, and it is then the only active annotation; the annotation of
  every other field is cleared, so it is as it was before the submit whenever that field
  had no active error.
\<close>

theorem submit_one_invalid_field:
  assumes "check_field f0 s = Inr False" and "\<forall>f. f \<noteq> f0 \<longrightarrow> check_field f s = Inr True"
  shows "\<exists>s'. submit_listener s = (s', None)
     \<and> (errorElements s f0 \<noteq> None \<longrightarrow> error_shown s' f0 \<and> (\<forall>f. error_active s' f \<longleftrightarrow> f = f0))
     \<and> (\<forall>f. f \<noteq> f0 \<longrightarrow> \<not> error_active s' f
            \<and> errorElements s' f = map_option cleared_element (errorElements s f))
     \<and> (\<forall>f. f \<noteq> f0 \<and> no_active_error s f \<longrightarrow> errorElements s' f = errorElements s f)"
proof -
  have "\<forall>f. \<exists>b. check_field f s = Inr b" using assms by metis
  from submit_listener_total [OF this] obtain s' where
    s': "submit_listener s = (s', None)" "\<forall>f. errorElements s' f = annotation_after s f"
    by blast
  have f0: "errorElements s' f0 = map_option (shown_element (errorMsg f0)) (errorElements s f0)"
    using s'(2) assms(1) by (simp add: annotation_after_def)
  have others: "errorElements s' f = map_option cleared_element (errorElements s f)" if "f \<noteq> f0" for f
    using s'(2) assms(2) that by (simp add: annotation_after_def)
  have na: "\<not> error_active s' f" if "f \<noteq> f0" for f
    using others [OF that] by (rule not_active_cleared_element)
  have "error_shown s' f0 \<and> (\<forall>f. error_active s' f \<longleftrightarrow> f = f0)" if "errorElements s f0 \<noteq> None"
    using error_shown_shown_element [OF f0 that] error_active_shown_element [OF f0 that] na
    by blast
  moreover have "errorElements s' f = errorElements s f" if "f \<noteq> f0" "no_active_error s f" for f
    using others [OF that(1)] no_active_error_cleared [OF that(2)] by simp
  ultimately show ?thesis using s'(1) others na by blast
qed

text \<open>
  One failing field without an error element, and a passing field whose annotation was
  still active: after the submit no annotation is active, and the passing field's
  annotation is no longer what it was.
\<close>

theorem submit_clears_stale_annotation:
  "check_field Subject (contact_page (filled_controls(Subject \<mapsto> text_control []))
      (blank_errors(Subject := None,
         Name \<mapsto> \<lparr>textContent = errorMsg Name, classList = [''error-message'', ''show'']\<rparr>))) = Inr False
   \<and> check_field Name (contact_page (filled_controls(Subject \<mapsto> text_control []))
      (blank_errors(Subject := None,
         Name \<mapsto> \<lparr>textContent = errorMsg Name, classList = [''error-message'', ''show'']\<rparr>))) = Inr True
   \<and> check_field Email (contact_page (filled_controls(Subject \<mapsto> text_control []))
      (blank_errors(Subject := None,
         Name \<mapsto> \<lparr>textContent = errorMsg Name, classList = [''error-message'', ''show'']\<rparr>))) = Inr True
   \<and> check_field Category (contact_page (filled_controls(Subject \<mapsto> text_control []))
      (blank_errors(Subject := None,
         Name \<mapsto> \<lparr>textContent = errorMsg Name, classList = [''error-message'', ''show'']\<rparr>))) = Inr True
   \<and> check_field Message (contact_page (filled_controls(Subject \<mapsto> text_control []))
      (blank_errors(Subject := None,
         Name \<mapsto> \<lparr>textContent = errorMsg Name, classList = [''error-message'', ''show'']\<rparr>))) = Inr True
   \<and> check_field Consent (contact_page (filled_controls(Subject \<mapsto> text_control []))
      (blank_errors(Subject := None,
         Name \<mapsto> \<lparr>textContent = errorMsg Name, classList = [''error-message'', ''show'']\<rparr>))) = Inr True
   \<and> snd (submit_listener (contact_page (filled_controls(Subject \<mapsto> text_control []))
      (blank_errors(Subject := None,
         Name \<mapsto> \<lparr>textContent = errorMsg Name, classList = [''error-message'', ''show'']\<rparr>)))) = None
   \<and> filter (error_active (fst (submit_listener (contact_page (filled_controls(Subject \<mapsto> text_control []))
      (blank_errors(Subject := None,
         Name \<mapsto> \<lparr>textContent = errorMsg Name, classList = [''error-message'', ''show'']\<rparr>)))))) fieldIds = []
   \<and> errorElements (contact_page (filled_controls(Subject \<mapsto> text_control []))
      (blank_errors(Subject := None,
         Name \<mapsto> \<lparr>textContent = errorMsg Name, classList = [''error-message'', ''show'']\<rparr>))) Name
       = Some \<lparr>textContent = errorMsg Name, classList = [''error-message'', ''show'']\<rparr>
   \<and> errorElements (fst (submit_listener (contact_page (filled_controls(Subject \<mapsto> text_control []))
      (blank_errors(Subject := None,
         Name \<mapsto> \<lparr>textContent = errorMsg Name, classList = [''error-message'', ''show'']\<rparr>))))) Name
       = Some \<lparr>textContent = [], classList = [''error-message'']\<rparr>"
  by (simp add: submit_eval error_active_def)

theorem submit_one_invalid_field_witness:
  "check_field Subject (contact_page (filled_controls(Subject \<mapsto> text_control [])) blank_errors) = Inr False
   \<and> snd (submit_listener (contact_page (filled_controls(Subject \<mapsto> text_control [])) blank_errors)) = None
   \<and> error_shown (fst (submit_listener
        (contact_page (filled_controls(Subject \<mapsto> text_control [])) blank_errors))) Subject
   \<and> filter (error_active (fst (submit_listener
        (contact_page (filled_controls(Subject \<mapsto> text_control [])) blank_errors)))) fieldIds = [Subject]
   \<and> errorElements (fst (submit_listener
        (contact_page (filled_controls(Subject \<mapsto> text_control [])) blank_errors))) Name = Some blank_error"
proof -
  let ?p = "contact_page (filled_controls(Subject \<mapsto> text_control [])) blank_errors"
  have s: "check_field Subject ?p = Inr False" by (simp add: page_eval trim_def)
  have o: "\<forall>f. f \<noteq> Subject \<longrightarrow> check_field f ?p = Inr True"
  proof (intro allI impI)
    fix f :: field assume "f \<noteq> Subject"
    then show "check_field f ?p = Inr True"
      by (cases f) (simp_all add: page_eval email_eval trim_def)
  qed
  have e: "errorElements ?p Subject \<noteq> None" "errorElements ?p Name = Some blank_error"
    "no_active_error ?p Name"
    by (simp_all add: page_eval no_active_error_def)
  from submit_one_invalid_field [OF s o] obtain s' where
    s': "submit_listener ?p = (s', None)"
    "errorElements ?p Subject \<noteq> None \<longrightarrow> error_shown s' Subject \<and> (\<forall>f. error_active s' f \<longleftrightarrow> f = Subject)"
    "\<forall>f. f \<noteq> Subject \<and> no_active_error ?p f \<longrightarrow> errorElements s' f = errorElements ?p f"
    by blast
  from s'(2) e(1) have act: "error_shown s' Subject" "\<And>f. error_active s' f \<longleftrightarrow> f = Subject" by simp_all
  have "filter (error_active s') fieldIds = [Subject]"
    by (simp add: fieldIds_def act(2))
  moreover have "errorElements s' Name = Some blank_error"
    using s'(3) e(2,3) by simp
  ultimately show ?thesis using s s'(1) act(1) by simp
qed

subsection \<open>The logged payload\<close>

lemma fire_timer_hides:
  "timers s = [(delay, HideSuccessMessage)] \<Longrightarrow>
     successMessage (fire_timer s) = map_option (\<lambda>m. m\<lparr>display := ''none''\<rparr>) (successMessage s)
     \<and> timers (fire_timer s) = []"
  by (simp add: fire_timer_def split: option.splits)

text \<open>
  The record is built from the controls as \<open>form.reset()\<close> has left them: whenever
  every predicate passes, the values logged are the default values of the five controls.
\<close>

lemma read_payload_controls:
  "controls s' = controls s \<Longrightarrow> read_payload ks s' = read_payload ks s"
  by (induction ks) (auto split: option.splits sum.splits)

lemma read_payload_form_reset:
  "\<forall>k \<in> set ks. controls s k \<noteq> None \<Longrightarrow>
     read_payload ks (form_reset s) =
       Inr (map (\<lambda>k. (fieldKey k, el_defaultValue (the (controls s k)))) ks)"
  by (induction ks) (auto simp: form_reset_def)

lemma success_path_console:
  assumes "\<forall>k. controls s k \<noteq> None"
  shows "console (fst (success_path s)) =
           console s @ [LogText ''Form submitted successfully'',
             LogObject (map (\<lambda>k. (fieldKey k, el_defaultValue (the (controls s k))))
                         [Name, Email, Subject, Category, Message])]"
proof -
  let ?s1 = "case successMessage s of None \<Rightarrow> s
             | Some m \<Rightarrow> s\<lparr>successMessage := Some (m\<lparr>display := ''block''\<rparr>)\<rparr>"
  let ?s2 = "form_reset ?s1"
  let ?s3 = "?s2\<lparr>timers := timers ?s2 @ [(5000, HideSuccessMessage)]\<rparr>"
  let ?s4 = "?s3\<lparr>console := console ?s3 @ [LogText ''Form submitted successfully'']\<rparr>"
  let ?ks = "[Name, Email, Subject, Category, Message]"
  have "controls ?s4 = controls (form_reset s)"
    by (simp add: form_reset_def split: option.splits)
  then have "read_payload ?ks ?s4 = read_payload ?ks (form_reset s)"
    by (rule read_payload_controls)
  also have "\<dots> = Inr (map (\<lambda>k. (fieldKey k, el_defaultValue (the (controls s k)))) ?ks)"
    using assms by (intro read_payload_form_reset) simp
  finally have p: "read_payload ?ks ?s4 =
      Inr (map (\<lambda>k. (fieldKey k, el_defaultValue (the (controls s k)))) ?ks)" .
  have c: "console ?s4 = console s @ [LogText ''Form submitted successfully'']"
    by (simp add: form_reset_def split: option.splits)
  show ?thesis
    unfolding success_path_def Let_def using p c by (simp del: read_payload.simps)
qed

lemma submit_logs_default_values:
  assumes "\<forall>f. check_field f s = Inr True"
  shows "console (fst (submit_listener s)) =
           console s @ [LogText ''Form submitted successfully'',
             LogObject (map (\<lambda>k. (fieldKey k, el_defaultValue (the (controls s k))))
                         [Name, Email, Subject, Category, Message])]"
proof -
  let ?s0 = "s\<lparr>defaultPrevented := True\<rparr>"
  obtain s1 r1 where va: "validate_all fieldIds ?s0 True = (s1, r1)"
    by (cases "validate_all fieldIds ?s0 True")
  have cf: "check_field f ?s0 = check_field f s" for f
    by (rule check_field_controls) simp
  have "snd (validate_all fieldIds ?s0 True) = Inr True"
    using assms by (simp add: validate_all_valid_iff cf)
  with va have r1: "r1 = Inr True" by simp
  from validate_all_frame [OF va] have fr: "s1 = ?s0\<lparr>errorElements := errorElements s1\<rparr>" .
  have c1: "controls s1 = controls s" by (subst fr) simp
  have l1: "console s1 = console s" by (subst fr) simp
  have "\<forall>k. controls s1 k \<noteq> None" using assms check_field_present c1 by metis
  from success_path_console [OF this] c1 l1
  have "console (fst (success_path s1)) =
           console s @ [LogText ''Form submitted successfully'',
             LogObject (map (\<lambda>k. (fieldKey k, el_defaultValue (the (controls s k))))
                         [Name, Email, Subject, Category, Message])]" by simp
  moreover have "submit_listener s = success_path s1"
    using va r1 by (simp add: submit_listener_def)
  ultimately show ?thesis by simp
qed

text \<open>
  Claim C1, evaluated on a page with all six fields valid. The success message is
  revealed, the controls are reset, the timer is scheduled at 5000 ms and hides the
  message when it fires. The payload is read after \<open>form.reset()\<close>: the record logged
  holds the reset values (here empty strings), not the values submitted.
\<close>

theorem submit_logs_reset_values:
  "read_payload [Name, Email, Subject, Category, Message] (contact_page filled_controls blank_errors) =
     Inr [(''name'', js ''Ann''), (''email'', js ''user@example.com''), (''subject'', js ''Order''),
          (''category'', js ''support''), (''message'', js ''Hello'')]
   \<and> snd (submit_listener (contact_page filled_controls blank_errors)) = None
   \<and> console (fst (submit_listener (contact_page filled_controls blank_errors))) =
       [LogText ''Form submitted successfully'',
        LogObject [(''name'', []), (''email'', []), (''subject'', []), (''category'', []),
                   (''message'', [])]]
   \<and> successMessage (fst (submit_listener (contact_page filled_controls blank_errors))) =
       Some \<lparr>display = ''block''\<rparr>
   \<and> timers (fst (submit_listener (contact_page filled_controls blank_errors))) =
       [(5000, HideSuccessMessage)]
   \<and> successMessage (fire_timer (fst (submit_listener (contact_page filled_controls blank_errors)))) =
       Some \<lparr>display = ''none''\<rparr>"
  by (simp add: submit_eval fire_timer_def)

section \<open>The wiring\<close>

lemma blur_registered:
  "contactForm s \<Longrightarrow> controls s f \<noteq> None \<Longrightarrow>
     (ControlOf f, ev) \<in> set (initializeContactForm s) \<longleftrightarrow> ev \<in> {Blur, Input, Change}"
  by (cases f; cases ev) (auto simp: initializeContactForm_def fieldIds_def)

lemma not_registered_absent:
  "controls s f = None \<Longrightarrow> (ControlOf f, ev) \<notin> set (initializeContactForm s)"
  by (auto simp: initializeContactForm_def fieldIds_def split: if_splits)

lemmas dispatch_eval =
  dispatch_def initializeContactForm_def blur_listener_def input_listener_def change_listener_def

text \<open>
  Claim C7, as the code has it. On a page with the contact form, for every field whose
  control and error element are both there: a blur with a value that the predicate
  rejects shows the field's error message, and an input or a change event clears the
  field's error at once, the predicate not being consulted.
\<close>

theorem blur_shows_input_clears:
  assumes "contactForm s" and "controls s f = Some el" and "errorElements s f = Some e"
  shows "(validate f s (current_value el) = Inr False \<longrightarrow>
            (\<exists>s'. dispatch (ControlOf f, Blur) s = (s', None) \<and> error_shown s' f
                 \<and> errorElements s' = (errorElements s)(f \<mapsto> shown_element (errorMsg f) e)))
     \<and> (\<forall>ev \<in> {Input, Change}.
            \<exists>s'. dispatch (ControlOf f, ev) s = (s', None) \<and> s' = clearFieldError f s
                 \<and> no_active_error s' f
                 \<and> errorElements s' = (errorElements s)(f \<mapsto> cleared_element e))"
proof -
  have reg: "(ControlOf f, ev) \<in> set (initializeContactForm s)" if "ev \<in> {Blur, Input, Change}" for ev
    using blur_registered [of s f ev] assms that by simp
  have shown: "error_shown (showFieldError f (errorMsg f) s) f"
    using assms(3)
    by (simp add: error_shown_def errorElements_showFieldError shown_element_def classList_add_def)
  have blur: "dispatch (ControlOf f, Blur) s = (showFieldError f (errorMsg f) s, None)"
    if "validate f s (current_value el) = Inr False"
    using that assms(2) reg [of Blur] by (simp add: dispatch_def blur_listener_def check_field_def)
  have clr: "no_active_error (clearFieldError f s) f"
    using assms(3)
    by (simp add: no_active_error_def errorElements_clearFieldError cleared_element_def classList_remove_def)
  have inp: "dispatch (ControlOf f, Input) s = (clearFieldError f s, None)"
    using reg [of Input] by (simp add: dispatch_def input_listener_def)
  have chg: "dispatch (ControlOf f, Change) s = (clearFieldError f s, None)"
    using reg [of Change] by (simp add: dispatch_def change_listener_def)
  have e1: "errorElements (showFieldError f (errorMsg f) s) = (errorElements s)(f \<mapsto> shown_element (errorMsg f) e)"
    using assms(3) by (simp add: errorElements_showFieldError)
  have e2: "errorElements (clearFieldError f s) = (errorElements s)(f \<mapsto> cleared_element e)"
    using assms(3) by (simp add: errorElements_clearFieldError)
  show ?thesis using shown blur clr inp chg e1 e2 by simp
qed

text \<open>
  A control whose error element is missing, and a page without the form: the blur leaves
  the page as it is and no error is shown.
\<close>

theorem blur_missing_error_element:
  "contactForm (contact_page (filled_controls(Name \<mapsto> text_control [])) (blank_errors(Name := None)))
   \<and> controls (contact_page (filled_controls(Name \<mapsto> text_control [])) (blank_errors(Name := None))) Name
       = Some (text_control [])
   \<and> validate Name (contact_page (filled_controls(Name \<mapsto> text_control [])) (blank_errors(Name := None)))
        (current_value (text_control [])) = Inr False
   \<and> dispatch (ControlOf Name, Blur)
        (contact_page (filled_controls(Name \<mapsto> text_control [])) (blank_errors(Name := None)))
       = (contact_page (filled_controls(Name \<mapsto> text_control [])) (blank_errors(Name := None)), None)
   \<and> \<not> error_shown
        (contact_page (filled_controls(Name \<mapsto> text_control [])) (blank_errors(Name := None))) Name
   \<and> dispatch (ControlOf Name, Blur)
        ((contact_page (filled_controls(Name \<mapsto> text_control [])) blank_errors)\<lparr>contactForm := False\<rparr>)
       = ((contact_page (filled_controls(Name \<mapsto> text_control [])) blank_errors)\<lparr>contactForm := False\<rparr>, None)
   \<and> \<not> error_shown
        ((contact_page (filled_controls(Name \<mapsto> text_control [])) blank_errors)\<lparr>contactForm := False\<rparr>) Name"
  by (simp add: dispatch_eval submit_eval error_shown_def)

theorem blur_shows_input_clears_witness:
  "validate Name (contact_page (filled_controls(Name \<mapsto> text_control [])) blank_errors)
        (current_value (text_control [])) = Inr False
   \<and> snd (dispatch (ControlOf Name, Blur)
        (contact_page (filled_controls(Name \<mapsto> text_control [])) blank_errors)) = None
   \<and> error_shown (fst (dispatch (ControlOf Name, Blur)
        (contact_page (filled_controls(Name \<mapsto> text_control [])) blank_errors))) Name
   \<and> \<not> no_active_error (showFieldError Name (errorMsg Name)
        (contact_page (filled_controls(Name \<mapsto> text_control [])) blank_errors)) Name
   \<and> no_active_error (fst (dispatch (ControlOf Name, Input)
        (showFieldError Name (errorMsg Name)
          (contact_page (filled_controls(Name \<mapsto> text_control [])) blank_errors)))) Name
   \<and> no_active_error (fst (dispatch (ControlOf Name, Change)
        (showFieldError Name (errorMsg Name)
          (contact_page (filled_controls(Name \<mapsto> text_control [])) blank_errors)))) Name"
proof -
  let ?p = "contact_page (filled_controls(Name \<mapsto> text_control [])) blank_errors"
  let ?q = "showFieldError Name (errorMsg Name) ?p"
  have p: "contactForm ?p" "controls ?p Name = Some (text_control [])"
    "errorElements ?p Name = Some blank_error"
    by (simp_all add: page_eval)
  have q: "contactForm ?q" "controls ?q Name = Some (text_control [])"
    "errorElements ?q Name = Some (shown_element (errorMsg Name) blank_error)"
    using p by (simp_all add: errorElements_showFieldError)
  have v: "validate Name ?p (current_value (text_control [])) = Inr False"
    by (simp add: page_eval trim_def)
  have nq: "\<not> no_active_error ?q Name"
    using q(3) by (simp add: no_active_error_def shown_element_def)
  from blur_shows_input_clears [OF p] v obtain s' where
    "dispatch (ControlOf Name, Blur) ?p = (s', None)" "error_shown s' Name"
    by blast
  moreover from blur_shows_input_clears [OF q] obtain s1 s2 where
    "dispatch (ControlOf Name, Input) ?q = (s1, None)" "no_active_error s1 Name"
    "dispatch (ControlOf Name, Change) ?q = (s2, None)" "no_active_error s2 Name"
    by blast
  ultimately show ?thesis using v nq by simp
qed

text \<open>
  Claim C2, evaluated on a page without the \<open>subject\<close> control. The wiring skips the
  field, and a blur on it does nothing. The submit pass has no such guard: it reads
  \<open>fieldData.element.value\<close> of the absent element and raises TypeError, and the fields
  after it are not validated (the empty \<open>message\<close> gets no error).
\<close>

theorem submit_raises_on_absent_control:
  "contactForm (contact_page (filled_controls(Subject := None, Message \<mapsto> text_control [])) blank_errors)
   \<and> controls (contact_page (filled_controls(Subject := None, Message \<mapsto> text_control [])) blank_errors)
        Subject = None
   \<and> dispatch (ControlOf Subject, Blur)
        (contact_page (filled_controls(Subject := None, Message \<mapsto> text_control [])) blank_errors)
       = (contact_page (filled_controls(Subject := None, Message \<mapsto> text_control [])) blank_errors, None)
   \<and> snd (dispatch (FormTarget, Submit)
        (contact_page (filled_controls(Subject := None, Message \<mapsto> text_control [])) blank_errors))
       = Some TypeError
   \<and> check_field Message
        (contact_page (filled_controls(Subject := None, Message \<mapsto> text_control [])) blank_errors)
       = Inr False
   \<and> \<not> error_shown (fst (dispatch (FormTarget, Submit)
        (contact_page (filled_controls(Subject := None, Message \<mapsto> text_control [])) blank_errors)))
        Message"
  by (simp add: dispatch_eval submit_eval error_shown_def)

section \<open>Totality of the predicates\<close>

text \<open>
  Claim C3, as the code has it. \<open>isFieldValid\<close> returns a boolean for every string,
  \<open>isValidEmail\<close> for every string and every boolean, and the consent predicate, when
  the consent control is there, returns its checked state for every input. On a boolean
  \<open>isFieldValid\<close> raises TypeError.
\<close>

theorem predicates_total_on_their_inputs:
  "(\<exists>r. isFieldValid (JString str) = Inr r)
   \<and> (\<exists>r. isValidEmail v = Inr r)
   \<and> (controls s Consent = Some el \<longrightarrow> validate Consent s v = Inr (el_checked el))
   \<and> isFieldValid (JBoolean b) = Inl TypeError"
  by (simp add: isValidEmail_def)

theorem isFieldValid_boolean_raises:
  "isFieldValid (JBoolean True) = Inl TypeError \<and> \<not> (\<exists>r. isFieldValid (JBoolean True) = Inr r)"
  by simp

theorem predicates_total_witness:
  "controls (contact_page filled_controls blank_errors) Consent = Some (checkbox_control True)
   \<and> validate Consent (contact_page filled_controls blank_errors) (JString (js ''on'')) = Inr True
   \<and> isFieldValid (JString (js ''Ann'')) = Inr True
   \<and> isValidEmail (JBoolean True) = Inr False"
proof -
  have c: "controls (contact_page filled_controls blank_errors) Consent = Some (checkbox_control True)"
    by (simp add: page_eval)
  have "isValidEmail (JBoolean True) = Inr False" by (simp add: email_eval)
  moreover have "isFieldValid (JString (js ''Ann'')) = Inr True"
    by (simp add: trim_def js_def isWhiteSpace_def)
  moreover have "validate Consent (contact_page filled_controls blank_errors) (JString (js ''on'')) = Inr True"
    using c predicates_total_on_their_inputs
      [of "js ''Ann''" "JString (js ''on'')" "contact_page filled_controls blank_errors" "checkbox_control True" True]
    by (simp add: checkbox_control_def)
  ultimately show ?thesis using c by blast
qed

end
